theory Spec2Isabelle
  imports Main
begin

section \<open>Rotation-aware tracking of the Arena log file (pyarena, arena\_log.py)\<close>

text \<open>
  The development embeds the class \<open>ArenaLog\<close> and its event handler
  \<open>FileEventHandler\<close>. The watchdog observer, pathlib, the process environment and the
  file system are collaborators of the code; they appear here as data the operations read
  (\<open>env\<close>) and as a store of observer objects the tracker holds references into.
\<close>

subsection \<open>Paths\<close>

text \<open>
  A pathlib path is its anchor (drive and root, possibly empty) and the list of the
  components below the anchor.
\<close>

record path =
  anchor :: string
  parts :: "string list"

text \<open>\<open>Path.parent\<close>: drops the last component; a path with no component is its own parent.\<close>

definition parent :: "path \<Rightarrow> path" where
  "parent p = p\<lparr>parts := butlast (parts p)\<rparr>"

text \<open>\<open>p / name\<close> for a single relative component, as every use in the source is.\<close>

definition joinpath :: "path \<Rightarrow> string \<Rightarrow> path" where
  "joinpath p c = p\<lparr>parts := parts p @ [c]\<rparr>"

text \<open>\<open>Path.name\<close>: the last component, the empty string when there is none.\<close>

definition name :: "path \<Rightarrow> string" where
  "name p = (if parts p = [] then [] else last (parts p))"

fun join_parts :: "string \<Rightarrow> string list \<Rightarrow> string" where
  "join_parts s [] = []"
| "join_parts s [c] = c"
| "join_parts s (c # d # cs) = c @ s @ join_parts s (d # cs)"

text \<open>\<open>str(p)\<close> with the separator \<open>s\<close> of the path flavour; the empty path prints as a dot.\<close>

definition str_path :: "string \<Rightarrow> path \<Rightarrow> string" where
  "str_path s p =
    (if anchor p = [] \<and> parts p = [] then ''.'' else anchor p @ join_parts s (parts p))"

subsection \<open>Module constants\<close>

definition WINDOWS_PLATFORM_IDENTIFIER :: string where
  "WINDOWS_PLATFORM_IDENTIFIER = ''Windows''"

definition COMPANY_SUBFOLDER_NAME :: string where
  "COMPANY_SUBFOLDER_NAME = ''Wizards Of The Coast''"

definition APPLICATION_SUBFOLDER_NAME :: string where
  "APPLICATION_SUBFOLDER_NAME = ''MTGA''"

definition CURRENT_LOGFILE_NAME :: string where
  "CURRENT_LOGFILE_NAME = ''Player.log''"

definition PREVIOUS_LOGFILE_NAME :: string where
  "PREVIOUS_LOGFILE_NAME = ''Player-prev.log''"

definition DEFAULT_POLLING_OBSERVER_INTERVAL :: nat where
  "DEFAULT_POLLING_OBSERVER_INTERVAL = 1"

subsection \<open>Errors\<close>

text \<open>
  The exceptions the source raises: \<open>TypeError\<close> and \<open>ValueError\<close> of the constructor,
  the \<open>RuntimeError\<close> of a failed automatic lookup, the \<open>NotImplementedError\<close> of an
  unsupported platform, and the module-level \<open>RuntimeError\<close> for an observer that is
  still alive after stop and join.
\<close>

datatype error =
  TypeError
| ValueError
| NoLogfileFound
| UnsupportedPlatform
| UnableToStopObserver

subsection \<open>What the code reads from outside\<close>

text \<open>
  \<open>platform_system\<close> is \<open>platform.system()\<close>, \<open>environ_appdata\<close> the lookup
  \<open>os.environ["appdata"]\<close> (\<open>None\<close> for the \<open>KeyError\<close>), \<open>home\<close> is \<open>Path.home()\<close>,
  \<open>mk_path\<close> the constructor \<open>Path(s)\<close> on a string, \<open>exists\<close> and \<open>resolve\<close> the
  file-system queries of the same names, \<open>sep\<close> the separator \<open>str\<close> prints between
  components, and \<open>fresh_stuck\<close> tells whether an observer created now will later fail
  to terminate when stopped.
\<close>

record env =
  platform_system :: string
  environ_appdata :: "string option"
  home :: path
  mk_path :: "string \<Rightarrow> path"
  exists :: "path \<Rightarrow> bool"
  resolve :: "path \<Rightarrow> path"
  sep :: string
  fresh_stuck :: bool

subsection \<open>Automatic lookup of the log file\<close>

text \<open>\<open>ArenaLog.find_logfile\<close>.\<close>

definition find_logfile :: "env \<Rightarrow> error + path" where
  "find_logfile e =
    (if platform_system e = WINDOWS_PLATFORM_IDENTIFIER then
       let appdata_locallow =
             (case environ_appdata e of
                Some s \<Rightarrow> joinpath (parent (mk_path e s)) ''LocalLow''
              | None \<Rightarrow> joinpath (joinpath (home e) ''AppData'') ''LocalLow'')
       in if \<not> exists e appdata_locallow then Inl NoLogfileFound
          else
            let logfile_path =
                  joinpath
                    (joinpath (joinpath appdata_locallow COMPANY_SUBFOLDER_NAME)
                       APPLICATION_SUBFOLDER_NAME)
                    CURRENT_LOGFILE_NAME
            in if \<not> exists e logfile_path then Inl NoLogfileFound
               else Inr (resolve e logfile_path)
     else Inl UnsupportedPlatform)"

text \<open>
  The directory \<open>find_logfile\<close> starts from, and the file it looks for, named so that its
  results can be stated.
\<close>

definition locallow_dir :: "env \<Rightarrow> path" where
  "locallow_dir e =
    (case environ_appdata e of
       Some s \<Rightarrow> joinpath (parent (mk_path e s)) ''LocalLow''
     | None \<Rightarrow> joinpath (joinpath (home e) ''AppData'') ''LocalLow'')"

definition expected_logfile :: "env \<Rightarrow> path" where
  "expected_logfile e =
    joinpath
      (joinpath (joinpath (locallow_dir e) COMPANY_SUBFOLDER_NAME) APPLICATION_SUBFOLDER_NAME)
      CURRENT_LOGFILE_NAME"

subsection \<open>Observers\<close>

text \<open>
  A watchdog observer is a thread. \<open>alive\<close> is what \<open>is_alive()\<close> reports, \<open>polling\<close>
  tells a \<open>PollingObserver\<close> (with its interval) from the native \<open>Observer\<close>, \<open>watches\<close>
  are the directories scheduled on it, and an observer that is \<open>stuck\<close> is still alive
  when \<open>join()\<close> has returned after \<open>stop()\<close>.
\<close>

record observer =
  alive :: bool
  stuck :: bool
  polling :: "nat option"
  watches :: "path list"

text \<open>The calls made on the collaborators, in the order they are made.\<close>

datatype call =
  CallFindLogfile
| CallNewObserver nat
| CallStop nat
| CallJoin nat
| CallIsAlive nat
| CallSchedule nat path
| CallStart nat

subsection \<open>The tracker\<close>

text \<open>
  The attributes of an \<open>ArenaLog\<close> object: \<open>path\<close>, \<open>observer\<close> (a reference into the
  store \<open>observers\<close> of the observer objects this tracker has held), \<open>event_handler\<close>
  (\<open>None\<close> once discarded; otherwise the patterns the handler was built with) and
  \<open>follow_current\<close>. \<open>calls\<close> is the history of calls on the collaborators.
\<close>

record tracker =
  path :: path
  observer :: nat
  event_handler :: "string list option"
  follow_current :: bool
  observers :: "observer list"
  calls :: "call list"

text \<open>The constructor's \<open>path\<close> argument: \<open>None\<close>, a string, a pathlib path, or any
  other object, of which only its truth value matters.\<close>

datatype path_arg =
  ArgNone
| ArgStr string
| ArgPath path
| ArgOther bool

text \<open>Python's \<open>not path\<close>.\<close>

fun falsy :: "path_arg \<Rightarrow> bool" where
  "falsy ArgNone = True"
| "falsy (ArgStr s) = (s = [])"
| "falsy (ArgPath p) = False"
| "falsy (ArgOther b) = (\<not> b)"

text \<open>\<open>ArenaLog.get_watchdog_observer\<close>: a polling observer on Windows, the native one elsewhere.\<close>

definition get_watchdog_observer :: "env \<Rightarrow> observer" where
  "get_watchdog_observer e =
    (if platform_system e = WINDOWS_PLATFORM_IDENTIFIER
     then \<lparr>alive = False, stuck = fresh_stuck e,
           polling = Some DEFAULT_POLLING_OBSERVER_INTERVAL, watches = []\<rparr>
     else \<lparr>alive = False, stuck = fresh_stuck e, polling = None, watches = []\<rparr>)"

text \<open>\<open>observer.schedule(handler, dir, recursive=False)\<close> followed by \<open>observer.start()\<close>.\<close>

definition schedule_start :: "path \<Rightarrow> observer \<Rightarrow> observer" where
  "schedule_start d ob = ob\<lparr>watches := watches ob @ [d], alive := True\<rparr>"

text \<open>\<open>observer.stop()\<close> followed by \<open>observer.join()\<close>.\<close>

definition stop_join :: "observer \<Rightarrow> observer" where
  "stop_join ob = ob\<lparr>alive := alive ob \<and> stuck ob\<rparr>"

text \<open>The constructor's first half (lines 52 to 63): the path the tracker starts with.\<close>

definition init_path :: "env \<Rightarrow> path_arg \<Rightarrow> error + path" where
  "init_path e a =
    (case (if falsy a
           then (case find_logfile e of Inl x \<Rightarrow> Inl x | Inr p \<Rightarrow> Inr (ArgPath p))
           else Inr a) of
       Inl x \<Rightarrow> Inl x
     | Inr a1 \<Rightarrow>
        (let a2 = (case a1 of ArgStr s \<Rightarrow> ArgPath (mk_path e s) | _ \<Rightarrow> a1)
         in case a2 of
              ArgPath p \<Rightarrow>
                (let p' = resolve e p
                 in if \<not> exists e p' then Inl ValueError else Inr p')
            | _ \<Rightarrow> Inl TypeError))"

text \<open>\<open>FileEventHandler.__init__\<close>: the patterns handed to the pattern-matching handler.\<close>

definition handler_patterns :: "path \<Rightarrow> string list" where
  "handler_patterns p = [CURRENT_LOGFILE_NAME, PREVIOUS_LOGFILE_NAME, name p]"

text \<open>\<open>ArenaLog.__init__\<close>. The observer is the one passed in, or a fresh one.\<close>

definition construct :: "env \<Rightarrow> path_arg \<Rightarrow> observer option \<Rightarrow> bool \<Rightarrow> error + tracker" where
  "construct e a ob fc =
    (case init_path e a of
       Inl x \<Rightarrow> Inl x
     | Inr p \<Rightarrow>
        (let ob0 = (case ob of None \<Rightarrow> get_watchdog_observer e | Some o' \<Rightarrow> o')
         in Inr \<lparr>path = p, observer = 0,
                 event_handler = Some (handler_patterns p),
                 follow_current = fc,
                 observers = [schedule_start (parent p) ob0],
                 calls = (case ob of None \<Rightarrow> [CallNewObserver 0] | Some o' \<Rightarrow> [])
                           @ [CallSchedule 0 (parent p), CallStart 0]\<rparr>))"

text \<open>The three statements \<open>stop(); join(); is_alive()\<close> shared by the methods below:
  the tracker afterwards, and what \<open>is_alive()\<close> answered.\<close>

definition stop_observer :: "tracker \<Rightarrow> bool \<times> tracker" where
  "stop_observer t =
    (let i = observer t;
         ob = stop_join (observers t ! i)
     in (alive ob,
         t\<lparr>observers := (observers t)[i := ob],
           calls := calls t @ [CallStop i, CallJoin i, CallIsAlive i]\<rparr>))"

text \<open>\<open>ArenaLog.handle_log_deleted\<close>.\<close>

definition handle_log_deleted :: "tracker \<Rightarrow> error option \<times> tracker" where
  "handle_log_deleted t =
    (case stop_observer t of
       (still, t1) \<Rightarrow>
         if still then (Some UnableToStopObserver, t1)
         else (None, t1\<lparr>event_handler := None\<rparr>))"

text \<open>\<open>ArenaLog.handle_log_moved\<close>.\<close>

definition handle_log_moved :: "env \<Rightarrow> tracker \<Rightarrow> error option \<times> tracker" where
  "handle_log_moved e t =
    (if follow_current t then
       (let t0 = t\<lparr>calls := calls t @ [CallFindLogfile]\<rparr>
        in case find_logfile e of
             Inl x \<Rightarrow> (Some x, t0)
           | Inr p \<Rightarrow>
              (case stop_observer (t0\<lparr>path := p\<rparr>) of
                 (still, t1) \<Rightarrow>
                   if still then (Some UnableToStopObserver, t1)
                   else
                     (let j = length (observers t1);
                          d = parent (path t1)
                      in (None,
                          t1\<lparr>observer := j,
                             observers :=
                               observers t1 @ [schedule_start d (get_watchdog_observer e)],
                             calls := calls t1 @
                               [CallNewObserver j, CallSchedule j d, CallStart j]\<rparr>))))
     else handle_log_deleted t)"

text \<open>The statements of \<open>ArenaLog.__del__\<close> (lines 159 to 162): the exception that
  leaves the method body, and the tracker afterwards.\<close>

definition del_body :: "tracker \<Rightarrow> error option \<times> tracker" where
  "del_body t =
    (case stop_observer t of
       (still, t1) \<Rightarrow> if still then (Some UnableToStopObserver, t1) else (None, t1))"

text \<open>
  \<open>ArenaLog.__del__\<close> as the program runs it. The method is the finalizer of the object:
  the interpreter calls it when the tracker goes out of scope or is collected, and an
  exception that leaves a finalizer is reported on the error stream and ignored. The code
  that dropped the tracker therefore sees no exception, whatever the body raised.
\<close>

definition del :: "tracker \<Rightarrow> error option \<times> tracker" where
  "del t = (None, snd (del_body t))"

text \<open>The number of observers of the tracker that are alive.\<close>

definition active_handles :: "tracker \<Rightarrow> nat" where
  "active_handles t = length (filter alive (observers t))"

subsection \<open>The event filter\<close>

text \<open>
  A watchdog event: \<open>src_path\<close> is \<open>getattr(event, "src_path", None)\<close>, \<open>dest_path\<close>
  is present on moved events.
\<close>

datatype event_kind = Created | Modified | Moved | Deleted

record event =
  kind :: event_kind
  is_directory :: bool
  src_path :: "string option"
  dest_path :: "string option"

text \<open>
  \<open>FileEventHandler.dispatch\<close>: \<open>True\<close> when the event reaches the handler methods.
  \<open>super_dispatch\<close> stands for \<open>PatternMatchingEventHandler.dispatch\<close> of the watchdog
  library, which decides from the handler's patterns and the event.
\<close>

definition dispatch ::
  "(string list \<Rightarrow> event \<Rightarrow> bool) \<Rightarrow> env \<Rightarrow> tracker \<Rightarrow> string list \<Rightarrow> event \<Rightarrow> bool" where
  "dispatch super_dispatch e t pats ev =
    (if is_directory ev then False
     else
       (case src_path ev of
          None \<Rightarrow> super_dispatch pats ev
        | Some s \<Rightarrow>
            if s \<noteq> [] \<and> s \<noteq> str_path (sep e) (path t) then False
            else super_dispatch pats ev))"

text \<open>The last component of a path string printed with separator character \<open>c\<close>.\<close>

definition basename :: "char \<Rightarrow> string \<Rightarrow> string" where
  "basename c s = rev (takeWhile (\<lambda>x. x \<noteq> c) (rev s))"

text \<open>
  The library's pattern-matching dispatch for patterns without wildcard characters:
  directories are ignored, and the event passes when the last component of its
  destination or of its non-empty source path is one of the patterns.
\<close>

definition literal_dispatch :: "char \<Rightarrow> string list \<Rightarrow> event \<Rightarrow> bool" where
  "literal_dispatch c pats ev =
    (\<not> is_directory ev \<and>
     ((case dest_path ev of None \<Rightarrow> False | Some d \<Rightarrow> basename c d \<in> set pats) \<or>
      (case src_path ev of None \<Rightarrow> False | Some s \<Rightarrow> s \<noteq> [] \<and> basename c s \<in> set pats)))"

subsection \<open>Well-formed trackers and the trackers the operations can produce\<close>

text \<open>
  The tracker's reference points into its store, and every observer in the store other
  than the referenced one is not alive.
\<close>

definition wf :: "tracker \<Rightarrow> bool" where
  "wf t =
    (observer t < length (observers t) \<and>
     list_all (\<lambda>ob. \<not> alive ob)
       (take (observer t) (observers t) @ drop (Suc (observer t)) (observers t)))"

text \<open>
  The trackers that exist: one returned by the constructor, and whatever a method call
  leaves behind, whether it returned or raised.
\<close>

inductive reachable :: "tracker \<Rightarrow> bool" where
  r_construct: "construct e a ob fc = Inr t \<Longrightarrow> reachable t"
| r_moved: "reachable t \<Longrightarrow> reachable (snd (handle_log_moved e t))"
| r_deleted: "reachable t \<Longrightarrow> reachable (snd (handle_log_deleted t))"
| r_del: "reachable t \<Longrightarrow> reachable (snd (del t))"


subsection \<open>Two concrete machines\<close>

text \<open>The backslash, the separator of Windows paths.\<close>

definition bs :: string where
  "bs = [CHR 0x5C]"

text \<open>
  A Linux machine on which \<open>/tmp/Player.log\<close> exists, and a Windows machine with
  \<open>%APPDATA%\<close> set, the Arena log file in its usual place and a file
  \<open>C:\tmp\Player.log\<close> besides.
\<close>

definition tmp_player_log :: path where
  "tmp_player_log = \<lparr>anchor = ''/'', parts = [''tmp'', ''Player.log'']\<rparr>"

definition linux_env :: env where
  "linux_env =
    \<lparr>platform_system = ''Linux'',
     environ_appdata = None,
     home = \<lparr>anchor = ''/'', parts = [''home'', ''u'']\<rparr>,
     mk_path = (\<lambda>s. if s = ''/tmp/Player.log'' then tmp_player_log
                     else \<lparr>anchor = [], parts = [s]\<rparr>),
     exists = (\<lambda>p. p = tmp_player_log),
     resolve = (\<lambda>p. p),
     sep = ''/'',
     fresh_stuck = False\<rparr>"

definition win_tmp_player_log :: path where
  "win_tmp_player_log = \<lparr>anchor = ''C:'' @ bs, parts = [''tmp'', ''Player.log'']\<rparr>"

definition win_locallow :: path where
  "win_locallow = \<lparr>anchor = ''C:'' @ bs, parts = [''Users'', ''u'', ''AppData'', ''LocalLow'']\<rparr>"

definition win_arena_log :: path where
  "win_arena_log =
    \<lparr>anchor = ''C:'' @ bs,
     parts = [''Users'', ''u'', ''AppData'', ''LocalLow'', ''Wizards Of The Coast'', ''MTGA'',
              ''Player.log'']\<rparr>"

definition win_env :: env where
  "win_env =
    \<lparr>platform_system = ''Windows'',
     environ_appdata = Some ''C:/Users/u/AppData/Roaming'',
     home = \<lparr>anchor = ''C:'' @ bs, parts = [''Users'', ''u'']\<rparr>,
     mk_path = (\<lambda>s. if s = ''C:/Users/u/AppData/Roaming''
                     then \<lparr>anchor = ''C:'' @ bs, parts = [''Users'', ''u'', ''AppData'', ''Roaming'']\<rparr>
                     else if s = ''/tmp/Player.log''
                     then \<lparr>anchor = bs, parts = [''tmp'', ''Player.log'']\<rparr>
                     else \<lparr>anchor = [], parts = [s]\<rparr>),
     exists = (\<lambda>p. p = win_tmp_player_log \<or> p = win_locallow \<or> p = win_arena_log),
     resolve = (\<lambda>p. if anchor p = bs then p\<lparr>anchor := ''C:'' @ bs\<rparr> else p),
     sep = bs,
     fresh_stuck = False\<rparr>"

text \<open>A Windows machine without the \<open>LocalLow\<close> tree.\<close>

definition bare_win_env :: env where
  "bare_win_env = win_env\<lparr>exists := (\<lambda>p. p = win_tmp_player_log)\<rparr>"

text \<open>The trackers built on these machines from the explicit path \<open>/tmp/Player.log\<close>,
  following the current log file, with an observer of their own.\<close>

definition linux_tracker :: tracker where
  "linux_tracker =
    \<lparr>path = tmp_player_log, observer = 0,
     event_handler = Some [''Player.log'', ''Player-prev.log'', ''Player.log''],
     follow_current = True,
     observers = [\<lparr>alive = True, stuck = False, polling = None,
                   watches = [\<lparr>anchor = ''/'', parts = [''tmp'']\<rparr>]\<rparr>],
     calls = [CallNewObserver 0, CallSchedule 0 \<lparr>anchor = ''/'', parts = [''tmp'']\<rparr>,
              CallStart 0]\<rparr>"

definition win_tracker :: tracker where
  "win_tracker =
    \<lparr>path = win_tmp_player_log, observer = 0,
     event_handler = Some [''Player.log'', ''Player-prev.log'', ''Player.log''],
     follow_current = True,
     observers = [\<lparr>alive = True, stuck = False, polling = Some 1,
                   watches = [\<lparr>anchor = ''C:'' @ bs, parts = [''tmp'']\<rparr>]\<rparr>],
     calls = [CallNewObserver 0, CallSchedule 0 \<lparr>anchor = ''C:'' @ bs, parts = [''tmp'']\<rparr>,
              CallStart 0]\<rparr>"

text \<open>An observer handed to the constructor that stays alive after stop and join, and
  the tracker built around it on the Linux machine.\<close>

definition stuck_observer :: observer where
  "stuck_observer = \<lparr>alive = False, stuck = True, polling = None, watches = []\<rparr>"

definition stuck_tracker :: tracker where
  "stuck_tracker =
    \<lparr>path = tmp_player_log, observer = 0,
     event_handler = Some [''Player.log'', ''Player-prev.log'', ''Player.log''],
     follow_current = True,
     observers = [\<lparr>alive = True, stuck = True, polling = None,
                   watches = [\<lparr>anchor = ''/'', parts = [''tmp'']\<rparr>]\<rparr>],
     calls = [CallSchedule 0 \<lparr>anchor = ''/'', parts = [''tmp'']\<rparr>, CallStart 0]\<rparr>"

text \<open>A file event that is not for a directory.\<close>

definition file_event :: "event_kind \<Rightarrow> string \<Rightarrow> string option \<Rightarrow> event" where
  "file_event k s d = \<lparr>kind = k, is_directory = False, src_path = Some s, dest_path = d\<rparr>"

section \<open>Properties\<close>

subsection \<open>Unfolding sets\<close>

lemmas machine_defs = linux_env_def win_env_def bare_win_env_def tmp_player_log_def
  win_tmp_player_log_def win_locallow_def win_arena_log_def bs_def linux_tracker_def
  win_tracker_def stuck_tracker_def stuck_observer_def file_event_def

lemmas const_defs = WINDOWS_PLATFORM_IDENTIFIER_def COMPANY_SUBFOLDER_NAME_def
  APPLICATION_SUBFOLDER_NAME_def CURRENT_LOGFILE_NAME_def PREVIOUS_LOGFILE_NAME_def
  DEFAULT_POLLING_OBSERVER_INTERVAL_def

lemmas path_defs = parent_def joinpath_def name_def

lemmas op_defs = construct_def init_path_def find_logfile_def handler_patterns_def
  get_watchdog_observer_def schedule_start_def stop_join_def stop_observer_def
  handle_log_deleted_def handle_log_moved_def del_def

subsection \<open>Automatic lookup\<close>

lemma find_logfile_cases:
  "find_logfile e =
    (if platform_system e \<noteq> WINDOWS_PLATFORM_IDENTIFIER then Inl UnsupportedPlatform
     else if \<not> exists e (locallow_dir e) \<or> \<not> exists e (expected_logfile e)
     then Inl NoLogfileFound
     else Inr (resolve e (expected_logfile e)))"
  by (simp add: find_logfile_def locallow_dir_def expected_logfile_def Let_def)

text \<open>
  Claim C8. The automatic lookup raises the unsupported-platform error exactly on a platform
  other than Windows; on Windows it raises the not-found error exactly when the \<open>LocalLow\<close>
  directory or the log file below it does not exist, and otherwise returns the resolved
  log file. The \<open>LocalLow\<close> directory is the sibling of the directory named by the
  \<open>appdata\<close> variable, or \<open>AppData/LocalLow\<close> below the home directory when the variable
  is unset; the log file is \<open>Wizards Of The Coast/MTGA/Player.log\<close> below it.
\<close>

theorem find_logfile_outcomes:
  "(find_logfile e = Inl UnsupportedPlatform \<longleftrightarrow> platform_system e \<noteq> ''Windows'') \<and>
   (find_logfile e = Inl NoLogfileFound \<longleftrightarrow>
      platform_system e = ''Windows'' \<and>
      (\<not> exists e (locallow_dir e) \<or> \<not> exists e (expected_logfile e))) \<and>
   (platform_system e = ''Windows'' \<and> exists e (locallow_dir e) \<and> exists e (expected_logfile e)
      \<longrightarrow> find_logfile e = Inr (resolve e (expected_logfile e))) \<and>
   locallow_dir e =
     (case environ_appdata e of
        Some s \<Rightarrow> \<lparr>anchor = anchor (mk_path e s),
                   parts = butlast (parts (mk_path e s)) @ [''LocalLow'']\<rparr>
      | None \<Rightarrow> \<lparr>anchor = anchor (home e), parts = parts (home e) @ [''AppData'', ''LocalLow'']\<rparr>) \<and>
   expected_logfile e =
     \<lparr>anchor = anchor (locallow_dir e),
      parts = parts (locallow_dir e) @ [''Wizards Of The Coast'', ''MTGA'', ''Player.log'']\<rparr>"
proof -
  have a: "find_logfile e = Inl UnsupportedPlatform \<longleftrightarrow> platform_system e \<noteq> ''Windows''"
    by (simp add: find_logfile_cases WINDOWS_PLATFORM_IDENTIFIER_def)
  have b: "find_logfile e = Inl NoLogfileFound \<longleftrightarrow>
      platform_system e = ''Windows'' \<and>
      (\<not> exists e (locallow_dir e) \<or> \<not> exists e (expected_logfile e))"
    by (simp add: find_logfile_cases WINDOWS_PLATFORM_IDENTIFIER_def)
  have c: "platform_system e = ''Windows'' \<and> exists e (locallow_dir e) \<and> exists e (expected_logfile e)
      \<longrightarrow> find_logfile e = Inr (resolve e (expected_logfile e))"
    by (simp add: find_logfile_cases WINDOWS_PLATFORM_IDENTIFIER_def)
  have d: "locallow_dir e =
     (case environ_appdata e of
        Some s \<Rightarrow> \<lparr>anchor = anchor (mk_path e s),
                   parts = butlast (parts (mk_path e s)) @ [''LocalLow'']\<rparr>
      | None \<Rightarrow> \<lparr>anchor = anchor (home e), parts = parts (home e) @ [''AppData'', ''LocalLow'']\<rparr>)"
    by (simp add: locallow_dir_def path_defs split: option.split)
  have f: "expected_logfile e =
     \<lparr>anchor = anchor (locallow_dir e),
      parts = parts (locallow_dir e) @ [''Wizards Of The Coast'', ''MTGA'', ''Player.log'']\<rparr>"
    by (simp add: expected_logfile_def path_defs const_defs)
  from a b c d f show ?thesis by blast
qed

theorem find_logfile_outcomes_witness:
  "find_logfile linux_env = Inl UnsupportedPlatform \<and>
   find_logfile bare_win_env = Inl NoLogfileFound \<and>
   find_logfile win_env = Inr win_arena_log \<and>
   locallow_dir win_env = win_locallow \<and>
   locallow_dir (win_env\<lparr>environ_appdata := None\<rparr>) = win_locallow"
proof -
  have a: "find_logfile linux_env = Inl UnsupportedPlatform"
    using find_logfile_outcomes [of linux_env] by (simp add: linux_env_def)
  have d: "locallow_dir win_env = win_locallow"
    using find_logfile_outcomes [of win_env] by (simp add: machine_defs)
  have d': "locallow_dir (win_env\<lparr>environ_appdata := None\<rparr>) = win_locallow"
    using find_logfile_outcomes [of "win_env\<lparr>environ_appdata := None\<rparr>"] by (simp add: machine_defs)
  have d2: "locallow_dir bare_win_env = win_locallow"
    using find_logfile_outcomes [of bare_win_env] by (simp add: machine_defs)
  have f: "expected_logfile win_env = win_arena_log"
    using find_logfile_outcomes [of win_env] d by (simp add: win_locallow_def win_arena_log_def)
  have b: "find_logfile bare_win_env = Inl NoLogfileFound"
    using find_logfile_outcomes [of bare_win_env] d2 by (simp add: machine_defs)
  have c: "find_logfile win_env = Inr win_arena_log"
    using find_logfile_outcomes [of win_env] d f by (simp add: machine_defs)
  from a b c d d' show ?thesis by blast
qed

subsection \<open>Construction\<close>

text \<open>
  Claim C10. The empty string as explicit path is treated like no path: construction does
  what it does for \<open>None\<close>, so the path comes from the automatic lookup, whose error
  (not found, unsupported platform) is the constructor's error.
\<close>

theorem empty_string_path_is_no_path:
  "construct e (ArgStr []) ob fc = construct e ArgNone ob fc \<and>
   init_path e (ArgStr []) =
     (case find_logfile e of
        Inl x \<Rightarrow> Inl x
      | Inr p \<Rightarrow> if exists e (resolve e p) then Inr (resolve e p) else Inl ValueError)"
  by (simp add: construct_def init_path_def Let_def split: sum.split)

theorem empty_string_path_is_no_path_witness:
  "construct linux_env (ArgStr []) None True = Inl UnsupportedPlatform \<and>
   construct bare_win_env (ArgStr []) None True = Inl NoLogfileFound \<and>
   construct linux_env ArgNone None True = Inl UnsupportedPlatform"
proof -
  have a: "find_logfile linux_env = Inl UnsupportedPlatform"
    by (simp add: find_logfile_cases linux_env_def const_defs)
  have b: "find_logfile bare_win_env = Inl NoLogfileFound"
    by (simp add: find_logfile_def machine_defs const_defs path_defs)
  note l = empty_string_path_is_no_path [of linux_env None True]
  note w = empty_string_path_is_no_path [of bare_win_env None True]
  from l a have l1: "init_path linux_env (ArgStr []) = Inl UnsupportedPlatform" by simp
  from w b have w1: "init_path bare_win_env (ArgStr []) = Inl NoLogfileFound" by simp
  have l2: "construct linux_env (ArgStr []) None True = Inl UnsupportedPlatform"
    by (simp add: construct_def l1)
  have w2: "construct bare_win_env (ArgStr []) None True = Inl NoLogfileFound"
    by (simp add: construct_def w1)
  from l l2 have l3: "construct linux_env ArgNone None True = Inl UnsupportedPlatform"
    by metis
  from l2 w2 l3 show ?thesis by blast
qed

subsection \<open>Stopping the observer\<close>

lemma stop_observer_fst: "fst (stop_observer t) = (alive (observers t ! observer t) \<and> stuck (observers t ! observer t))"
  by (simp add: stop_observer_def stop_join_def Let_def)

lemma stop_observer_snd:
  "snd (stop_observer t) =
    t\<lparr>observers := (observers t)[observer t := stop_join (observers t ! observer t)],
      calls := calls t @ [CallStop (observer t), CallJoin (observer t), CallIsAlive (observer t)]\<rparr>"
  by (simp add: stop_observer_def Let_def)

lemma handle_log_deleted_eq:
  "handle_log_deleted t =
    (if fst (stop_observer t) then (Some UnableToStopObserver, snd (stop_observer t))
     else (None, (snd (stop_observer t))\<lparr>event_handler := None\<rparr>))"
  by (simp add: handle_log_deleted_def split: prod.split)

lemma del_body_eq:
  "del_body t =
    (if fst (stop_observer t) then (Some UnableToStopObserver, snd (stop_observer t))
     else (None, snd (stop_observer t)))"
  by (simp add: del_body_def split: prod.split)

lemma del_eq: "del t = (None, snd (stop_observer t))"
  by (simp add: del_def del_body_eq)

lemma handle_log_moved_eq:
  "handle_log_moved e t =
    (if follow_current t then
       (case find_logfile e of
          Inl x \<Rightarrow> (Some x, t\<lparr>calls := calls t @ [CallFindLogfile]\<rparr>)
        | Inr p \<Rightarrow>
            (let t1 = snd (stop_observer (t\<lparr>calls := calls t @ [CallFindLogfile], path := p\<rparr>))
             in if alive (observers t ! observer t) \<and> stuck (observers t ! observer t)
                then (Some UnableToStopObserver, t1)
                else (None,
                      t1\<lparr>observer := length (observers t1),
                         observers := observers t1 @
                           [schedule_start (parent p) (get_watchdog_observer e)],
                         calls := calls t1 @
                           [CallNewObserver (length (observers t1)),
                            CallSchedule (length (observers t1)) (parent p),
                            CallStart (length (observers t1))]\<rparr>)))
     else handle_log_deleted t)"
proof (cases "follow_current t")
  case False
  then show ?thesis by (simp add: handle_log_moved_def)
next
  case fc: True
  show ?thesis
  proof (cases "find_logfile e")
    case (Inl x)
    with fc show ?thesis by (simp add: handle_log_moved_def)
  next
    case (Inr p)
    show ?thesis
    proof (cases "alive (observers t ! observer t) \<and> stuck (observers t ! observer t)")
      case True
      with fc Inr show ?thesis
        by (simp add: handle_log_moved_def stop_observer_def stop_join_def Let_def)
    next
      case False
      with fc Inr show ?thesis
        by (simp add: handle_log_moved_def stop_observer_def stop_join_def Let_def)
    qed
  qed
qed

subsection \<open>A move whose lookup fails\<close>

text \<open>
  Claim C9. With \<open>follow_current\<close> set, when the automatic lookup raises while a move is
  handled, that error (not found, or unsupported platform) is the outcome, nothing has been
  called on the observer, and the tracked path, the observers and the handler are as
  before: an observer that was alive is still alive.
\<close>

theorem failed_lookup_leaves_tracker:
  assumes "follow_current t" and "find_logfile e = Inl x"
  shows "fst (handle_log_moved e t) = Some x \<and>
         (x = NoLogfileFound \<or> x = UnsupportedPlatform) \<and>
         snd (handle_log_moved e t) = t\<lparr>calls := calls t @ [CallFindLogfile]\<rparr> \<and>
         path (snd (handle_log_moved e t)) = path t \<and>
         observers (snd (handle_log_moved e t)) = observers t \<and>
         event_handler (snd (handle_log_moved e t)) = event_handler t \<and>
         active_handles (snd (handle_log_moved e t)) = active_handles t"
proof -
  from assms have r: "handle_log_moved e t = (Some x, t\<lparr>calls := calls t @ [CallFindLogfile]\<rparr>)"
    by (simp add: handle_log_moved_eq)
  from assms(2) have k: "x = NoLogfileFound \<or> x = UnsupportedPlatform"
    by (auto simp add: find_logfile_cases split: if_splits)
  from r k show ?thesis by (simp add: active_handles_def)
qed

theorem failed_lookup_leaves_tracker_witness:
  "follow_current linux_tracker \<and> find_logfile linux_env = Inl UnsupportedPlatform \<and>
   fst (handle_log_moved linux_env linux_tracker) = Some UnsupportedPlatform \<and>
   path (snd (handle_log_moved linux_env linux_tracker)) = tmp_player_log \<and>
   active_handles (snd (handle_log_moved linux_env linux_tracker)) = 1"
proof -
  have a: "follow_current linux_tracker" by (simp add: linux_tracker_def)
  have b: "find_logfile linux_env = Inl UnsupportedPlatform"
    by (simp add: find_logfile_cases linux_env_def const_defs)
  have c: "path linux_tracker = tmp_player_log" by (simp add: linux_tracker_def)
  have d: "active_handles linux_tracker = 1" by (simp add: linux_tracker_def active_handles_def)
  note th = failed_lookup_leaves_tracker [OF a b]
  from th have e: "fst (handle_log_moved linux_env linux_tracker) = Some UnsupportedPlatform"
    by blast
  from th c have f: "path (snd (handle_log_moved linux_env linux_tracker)) = tmp_player_log"
    by metis
  from th d have g: "active_handles (snd (handle_log_moved linux_env linux_tracker)) = 1"
    by metis
  from a b e f g show ?thesis by blast
qed

subsection \<open>Stop, teardown and the shutdown error\<close>

text \<open>
  In \<open>handle_log_deleted\<close>, in the body of \<open>__del__\<close> and in the stop that
  \<open>handle_log_moved\<close> performs after a successful lookup: when the observer is still alive
  after stop and join, the shutdown error is raised and the handler is the one the tracker
  had; when it is not alive, no error is raised.
\<close>

lemma stop_raises_iff_still_alive:
  "(alive (stop_join (observers t ! observer t)) \<longrightarrow>
      fst (handle_log_deleted t) = Some UnableToStopObserver \<and>
      event_handler (snd (handle_log_deleted t)) = event_handler t \<and>
      fst (del_body t) = Some UnableToStopObserver \<and>
      event_handler (snd (del_body t)) = event_handler t \<and>
      (find_logfile e \<noteq> Inl NoLogfileFound \<and> find_logfile e \<noteq> Inl UnsupportedPlatform \<longrightarrow>
         fst (handle_log_moved e t) = Some UnableToStopObserver \<and>
         event_handler (snd (handle_log_moved e t)) = event_handler t)) \<and>
   (\<not> alive (stop_join (observers t ! observer t)) \<longrightarrow>
      fst (handle_log_deleted t) = None \<and>
      fst (del_body t) = None \<and>
      (find_logfile e \<noteq> Inl NoLogfileFound \<and> find_logfile e \<noteq> Inl UnsupportedPlatform \<longrightarrow>
         fst (handle_log_moved e t) = None))"
proof -
  have k: "alive (stop_join (observers t ! observer t)) = fst (stop_observer t)"
    by (simp add: stop_observer_def Let_def)
  have s: "event_handler (snd (stop_observer t)) = event_handler t"
    by (simp add: stop_observer_snd)
  have d1: "fst (stop_observer t) \<Longrightarrow>
      fst (handle_log_deleted t) = Some UnableToStopObserver \<and>
      event_handler (snd (handle_log_deleted t)) = event_handler t \<and>
      fst (del_body t) = Some UnableToStopObserver \<and>
      event_handler (snd (del_body t)) = event_handler t"
    by (simp add: handle_log_deleted_eq del_body_eq s)
  have d2: "\<not> fst (stop_observer t) \<Longrightarrow>
      fst (handle_log_deleted t) = None \<and> fst (del_body t) = None"
    by (simp add: handle_log_deleted_eq del_body_eq)
  have found: "find_logfile e \<noteq> Inl NoLogfileFound \<and> find_logfile e \<noteq> Inl UnsupportedPlatform
      \<Longrightarrow> \<exists>p. find_logfile e = Inr p"
    by (simp add: find_logfile_cases split: if_splits)
  have m1: "fst (stop_observer t) \<Longrightarrow>
      find_logfile e \<noteq> Inl NoLogfileFound \<and> find_logfile e \<noteq> Inl UnsupportedPlatform \<Longrightarrow>
      fst (handle_log_moved e t) = Some UnableToStopObserver \<and>
      event_handler (snd (handle_log_moved e t)) = event_handler t"
  proof -
    assume a: "fst (stop_observer t)"
      and b: "find_logfile e \<noteq> Inl NoLogfileFound \<and> find_logfile e \<noteq> Inl UnsupportedPlatform"
    from found [OF b] obtain p where p: "find_logfile e = Inr p" by blast
    from a have a': "alive (observers t ! observer t) \<and> stuck (observers t ! observer t)"
      by (simp add: stop_observer_fst)
    show ?thesis
    proof (cases "follow_current t")
      case True
      with p a' show ?thesis by (simp add: handle_log_moved_eq stop_observer_snd)
    next
      case False
      with d1 [OF a] show ?thesis by (simp add: handle_log_moved_eq)
    qed
  qed
  have m2: "\<not> fst (stop_observer t) \<Longrightarrow>
      find_logfile e \<noteq> Inl NoLogfileFound \<and> find_logfile e \<noteq> Inl UnsupportedPlatform \<Longrightarrow>
      fst (handle_log_moved e t) = None"
  proof -
    assume a: "\<not> fst (stop_observer t)"
      and b: "find_logfile e \<noteq> Inl NoLogfileFound \<and> find_logfile e \<noteq> Inl UnsupportedPlatform"
    from found [OF b] obtain p where p: "find_logfile e = Inr p" by blast
    from a have a': "\<not> (alive (observers t ! observer t) \<and> stuck (observers t ! observer t))"
      by (simp add: stop_observer_fst)
    show ?thesis
    proof (cases "follow_current t")
      case True
      with p a' show ?thesis by (simp add: handle_log_moved_eq Let_def)
    next
      case False
      with d2 [OF a] show ?thesis by (simp add: handle_log_moved_eq)
    qed
  qed
  from k d1 d2 m1 m2 show ?thesis by metis
qed

text \<open>
  Claim C6. Every stop or teardown that finds the observer still alive after stop and join
  raises the shutdown error to its caller and leaves the handler in place. The code departs
  from this in its teardown: for the tracker built around the stuck observer, the body of
  \<open>__del__\<close> raises the shutdown error, but the finalizer's exception is ignored, so the
  code that dropped the tracker sees no error while the observer is still alive;
  \<open>handle_log_deleted\<close> on the same tracker does raise it.
\<close>

theorem shutdown_error_lost_in_finalizer:
  "construct linux_env (ArgStr ''/tmp/Player.log'') (Some stuck_observer) True = Inr stuck_tracker \<and>
   alive (stop_join (observers stuck_tracker ! observer stuck_tracker)) \<and>
   fst (del_body stuck_tracker) = Some UnableToStopObserver \<and>
   fst (del stuck_tracker) = None \<and>
   active_handles (snd (del stuck_tracker)) = 1 \<and>
   event_handler (snd (del stuck_tracker)) = event_handler stuck_tracker \<and>
   fst (handle_log_deleted stuck_tracker) = Some UnableToStopObserver"
proof -
  have c: "construct linux_env (ArgStr ''/tmp/Player.log'') (Some stuck_observer) True =
      Inr stuck_tracker"
    by (simp add: machine_defs op_defs path_defs const_defs)
  have a: "alive (stop_join (observers stuck_tracker ! observer stuck_tracker))"
    by (simp add: stuck_tracker_def stop_join_def)
  have k: "fst (stop_observer stuck_tracker)"
    by (simp add: stop_observer_fst stuck_tracker_def)
  from k have b: "fst (del_body stuck_tracker) = Some UnableToStopObserver"
    by (simp add: del_body_eq)
  have d: "fst (del stuck_tracker) = None" by (simp add: del_eq)
  have f: "active_handles (snd (del stuck_tracker)) = 1"
    by (simp add: del_eq stop_observer_snd stop_join_def active_handles_def stuck_tracker_def)
  have g: "event_handler (snd (del stuck_tracker)) = event_handler stuck_tracker"
    by (simp add: del_eq stop_observer_snd)
  from k have h: "fst (handle_log_deleted stuck_tracker) = Some UnableToStopObserver"
    by (simp add: handle_log_deleted_eq)
  from c a b d f g h show ?thesis by blast
qed

subsection \<open>Teardown of a tracker that is already stopped\<close>

text \<open>
  Claim C7, as the code has it. On a tracker whose observer is not alive, \<open>__del__\<close> raises
  nothing, in its body as for the code that dropped the tracker, and changes nothing, but it
  does call \<open>stop\<close>, \<open>join\<close> and \<open>is_alive\<close> on the observer once more.
\<close>

theorem del_when_stopped:
  assumes "\<not> alive (observers t ! observer t)"
  shows "del t =
    (None, t\<lparr>calls := calls t @
                [CallStop (observer t), CallJoin (observer t), CallIsAlive (observer t)]\<rparr>) \<and>
    del_body t = del t"
proof -
  from assms have a: "stop_join (observers t ! observer t) = observers t ! observer t"
    by (simp add: stop_join_def)
  from assms have b: "\<not> fst (stop_observer t)" by (simp add: stop_observer_fst)
  from a have c: "snd (stop_observer t) =
      t\<lparr>calls := calls t @
            [CallStop (observer t), CallJoin (observer t), CallIsAlive (observer t)]\<rparr>"
    by (simp add: stop_observer_snd)
  from b c show ?thesis by (simp add: del_eq del_body_eq)
qed

theorem del_when_stopped_witness:
  "\<not> alive (observers (snd (del linux_tracker)) ! observer (snd (del linux_tracker))) \<and>
   del (snd (del linux_tracker)) =
     (None, (snd (del linux_tracker))\<lparr>calls := calls (snd (del linux_tracker)) @
                [CallStop 0, CallJoin 0, CallIsAlive 0]\<rparr>)"
proof -
  have o: "observer (snd (del linux_tracker)) = 0"
    by (simp add: del_eq stop_observer_fst stop_observer_snd linux_tracker_def)
  have a: "\<not> alive (observers (snd (del linux_tracker)) ! observer (snd (del linux_tracker)))"
    by (simp add: del_eq stop_observer_fst stop_observer_snd stop_join_def linux_tracker_def)
  from del_when_stopped [OF a] have "del (snd (del linux_tracker)) =
     (None, (snd (del linux_tracker))\<lparr>calls := calls (snd (del linux_tracker)) @
                [CallStop (observer (snd (del linux_tracker))),
                 CallJoin (observer (snd (del linux_tracker))),
                 CallIsAlive (observer (snd (del linux_tracker)))]\<rparr>)" by blast
  with a o show ?thesis by simp
qed

text \<open>
  The claim's second half fails: the second teardown of the Linux tracker stops the observer
  again.
\<close>

theorem second_del_stops_again:
  "fst (del linux_tracker) = None \<and>
   active_handles (snd (del linux_tracker)) = 0 \<and>
   fst (del (snd (del linux_tracker))) = None \<and>
   calls (snd (del linux_tracker)) =
     calls linux_tracker @ [CallStop 0, CallJoin 0, CallIsAlive 0] \<and>
   calls (snd (del (snd (del linux_tracker)))) =
     calls linux_tracker @ [CallStop 0, CallJoin 0, CallIsAlive 0, CallStop 0, CallJoin 0, CallIsAlive 0]"
  by (simp add: del_eq stop_observer_fst stop_observer_snd stop_join_def linux_tracker_def
      active_handles_def)

subsection \<open>The order of the steps of a rotation\<close>

text \<open>
  Claim C3, as the code has it. With \<open>follow_current\<close> set, \<open>handle_log_moved\<close> first runs
  the lookup, whose error ends the call with nothing stopped; then it stops and joins the
  observer and asks whether it is alive, raising the shutdown error if so; then it creates,
  schedules and starts a new observer.
\<close>

theorem rotation_order:
  assumes "follow_current t"
  shows "calls (snd (handle_log_moved e t)) =
      calls t @ CallFindLogfile #
        (case find_logfile e of
           Inl x \<Rightarrow> []
         | Inr p \<Rightarrow>
             [CallStop (observer t), CallJoin (observer t), CallIsAlive (observer t)] @
             (if alive (observers t ! observer t) \<and> stuck (observers t ! observer t) then []
              else [CallNewObserver (length (observers t)),
                    CallSchedule (length (observers t)) (parent p),
                    CallStart (length (observers t))])) \<and>
    fst (handle_log_moved e t) =
      (case find_logfile e of
         Inl x \<Rightarrow> Some x
       | Inr p \<Rightarrow>
           if alive (observers t ! observer t) \<and> stuck (observers t ! observer t)
           then Some UnableToStopObserver else None)"
proof (cases "find_logfile e")
  case (Inl x)
  with assms show ?thesis by (simp add: handle_log_moved_eq)
next
  case (Inr p)
  show ?thesis
  proof (cases "alive (observers t ! observer t) \<and> stuck (observers t ! observer t)")
    case True
    with assms Inr show ?thesis by (simp add: handle_log_moved_eq stop_observer_snd)
  next
    case False
    with assms Inr show ?thesis by (simp add: handle_log_moved_eq stop_observer_snd Let_def)
  qed
qed

theorem rotation_order_witness:
  "follow_current win_tracker \<and>
   fst (handle_log_moved win_env win_tracker) = None \<and>
   calls (snd (handle_log_moved win_env win_tracker)) =
     calls win_tracker @
       [CallFindLogfile, CallStop 0, CallJoin 0, CallIsAlive 0, CallNewObserver 1,
        CallSchedule 1 (parent win_arena_log), CallStart 1]"
proof -
  have a: "follow_current win_tracker" by (simp add: win_tracker_def)
  have c: "find_logfile win_env = Inr win_arena_log"
    by (simp add: find_logfile_def machine_defs const_defs path_defs)
  have d: "observer win_tracker = 0 \<and> length (observers win_tracker) = 1 \<and>
      \<not> stuck (observers win_tracker ! 0)"
    by (simp add: win_tracker_def)
  from rotation_order [OF a, of win_env] a c d show ?thesis by simp
qed

text \<open>
  The order the claim gives fails: on the Linux machine, with an observer that would not
  stop, the call ends with the lookup's error, and the observer has not been asked to stop.
\<close>

theorem lookup_precedes_stop:
  "follow_current stuck_tracker \<and>
   stuck (observers stuck_tracker ! observer stuck_tracker) \<and>
   fst (handle_log_moved linux_env stuck_tracker) = Some UnsupportedPlatform \<and>
   calls (snd (handle_log_moved linux_env stuck_tracker)) =
     calls stuck_tracker @ [CallFindLogfile] \<and>
   alive (observers (snd (handle_log_moved linux_env stuck_tracker)) ! 0)"
proof -
  have b: "find_logfile linux_env = Inl UnsupportedPlatform"
    by (simp add: find_logfile_cases linux_env_def const_defs)
  have h: "handle_log_moved linux_env stuck_tracker =
      (Some UnsupportedPlatform, stuck_tracker\<lparr>calls := calls stuck_tracker @ [CallFindLogfile]\<rparr>)"
    by (simp add: handle_log_moved_eq b) (simp add: stuck_tracker_def)
  show ?thesis by (simp add: h) (simp add: stuck_tracker_def)
qed

subsection \<open>The event filter\<close>

text \<open>
  Claim C1, as the code has it. An event is delivered exactly when it is not a directory
  event, its source path is absent, empty or equal to the printed tracked path, and the
  library's pattern matching on the handler's patterns lets it pass. The name of the file
  alone does not suffice.
\<close>

theorem dispatch_iff:
  "dispatch super_dispatch e t pats ev \<longleftrightarrow>
     \<not> is_directory ev \<and>
     (src_path ev = None \<or> src_path ev = Some [] \<or>
      src_path ev = Some (str_path (sep e) (path t))) \<and>
     super_dispatch pats ev"
  by (auto simp add: dispatch_def split: option.splits)

theorem dispatch_iff_witness:
  "dispatch (literal_dispatch CHR ''/'') linux_env linux_tracker
     [''Player.log'', ''Player-prev.log'', ''Player.log'']
     (file_event Moved ''/tmp/Player.log'' (Some ''/tmp/Player-prev.log''))"
proof -
  have a: "str_path (sep linux_env) (path linux_tracker) = ''/tmp/Player.log''"
    by (simp add: linux_env_def linux_tracker_def tmp_player_log_def str_path_def)
  have b: "literal_dispatch CHR ''/'' [''Player.log'', ''Player-prev.log'', ''Player.log'']
     (file_event Moved ''/tmp/Player.log'' (Some ''/tmp/Player-prev.log''))"
    by (simp add: literal_dispatch_def file_event_def basename_def)
  have c: "\<not> is_directory (file_event Moved ''/tmp/Player.log'' (Some ''/tmp/Player-prev.log''))
     \<and> src_path (file_event Moved ''/tmp/Player.log'' (Some ''/tmp/Player-prev.log'')) =
        Some ''/tmp/Player.log''"
    by (simp add: file_event_def)
  from a b c show ?thesis
    using dispatch_iff [of "literal_dispatch CHR ''/''" linux_env linux_tracker
        "[''Player.log'', ''Player-prev.log'', ''Player.log'']"
        "file_event Moved ''/tmp/Player.log'' (Some ''/tmp/Player-prev.log'')"]
    by simp
qed

text \<open>
  The claim fails: a file event for \<open>/tmp/Player-prev.log\<close>, and one for a
  \<open>Player.log\<close> in another directory, are dropped by the tracker of \<open>/tmp/Player.log\<close>,
  though the pattern matching alone would let them pass.
\<close>

theorem dispatch_drops_log_names:
  "\<not> is_directory (file_event Created ''/tmp/Player-prev.log'' None) \<and>
   basename CHR ''/'' ''/tmp/Player-prev.log'' = PREVIOUS_LOGFILE_NAME \<and>
   literal_dispatch CHR ''/'' [''Player.log'', ''Player-prev.log'', ''Player.log'']
     (file_event Created ''/tmp/Player-prev.log'' None) \<and>
   \<not> dispatch (literal_dispatch CHR ''/'') linux_env linux_tracker
     [''Player.log'', ''Player-prev.log'', ''Player.log'']
     (file_event Created ''/tmp/Player-prev.log'' None) \<and>
   \<not> is_directory (file_event Modified ''/var/Player.log'' None) \<and>
   basename CHR ''/'' ''/var/Player.log'' = CURRENT_LOGFILE_NAME \<and>
   \<not> dispatch (literal_dispatch CHR ''/'') linux_env linux_tracker
     [''Player.log'', ''Player-prev.log'', ''Player.log'']
     (file_event Modified ''/var/Player.log'' None)"
  by (simp add: dispatch_def literal_dispatch_def file_event_def basename_def const_defs
      linux_env_def linux_tracker_def tmp_player_log_def str_path_def)

subsection \<open>Every tracker is well formed\<close>

lemma wf_active_handles:
  assumes "wf t"
  shows "active_handles t = (if alive (observers t ! observer t) then 1 else 0)"
proof -
  from assms have i: "observer t < length (observers t)"
    and d: "list_all (\<lambda>ob. \<not> alive ob)
       (take (observer t) (observers t) @ drop (Suc (observer t)) (observers t))"
    by (simp_all add: wf_def)
  from d have d1: "filter alive (take (observer t) (observers t)) = []"
    and d2: "filter alive (drop (Suc (observer t)) (observers t)) = []"
    by (simp_all add: list_all_iff)
  have "filter alive (observers t) =
      filter alive (take (observer t) (observers t) @ observers t ! observer t #
                    drop (Suc (observer t)) (observers t))"
    using id_take_nth_drop [OF i] by simp
  with d1 d2 show ?thesis by (simp add: active_handles_def)
qed

lemma wf_construct:
  assumes "construct e a ob fc = Inr t"
  shows "wf t"
  using assms by (auto simp add: construct_def wf_def Let_def split: sum.splits)

lemma wf_stop_observer:
  assumes "wf t"
  shows "wf (snd (stop_observer t))"
  using assms by (simp add: stop_observer_snd wf_def)

lemma stop_observer_current:
  assumes "observer t < length (observers t)"
  shows "observers (snd (stop_observer t)) ! observer t = stop_join (observers t ! observer t)"
  using assms by (simp add: stop_observer_snd)

lemma wf_all_dead:
  assumes "wf t" and "\<not> alive (observers t ! observer t)"
  shows "list_all (\<lambda>ob. \<not> alive ob) (observers t)"
proof -
  from assms(1) have i: "observer t < length (observers t)"
    and d: "list_all (\<lambda>ob. \<not> alive ob)
       (take (observer t) (observers t) @ drop (Suc (observer t)) (observers t))"
    by (simp_all add: wf_def)
  have "list_all (\<lambda>ob. \<not> alive ob)
      (take (observer t) (observers t) @ observers t ! observer t #
       drop (Suc (observer t)) (observers t))"
    using d assms(2) by simp
  with id_take_nth_drop [OF i] show ?thesis by simp
qed

lemma wf_handle_log_deleted:
  assumes "wf t"
  shows "wf (snd (handle_log_deleted t))"
proof -
  have "wf ((snd (stop_observer t))\<lparr>event_handler := None\<rparr>)"
    using wf_stop_observer [OF assms] by (simp add: wf_def)
  with wf_stop_observer [OF assms] show ?thesis by (simp add: handle_log_deleted_eq)
qed

lemma wf_del:
  assumes "wf t"
  shows "wf (snd (del t))"
  using wf_stop_observer [OF assms] by (simp add: del_eq)

lemma wf_extend:
  assumes "list_all (\<lambda>ob. \<not> alive ob) (observers t)"
  shows "wf (t\<lparr>observer := length (observers t), observers := observers t @ [ob], calls := cs\<rparr>)"
  using assms by (simp add: wf_def)

lemma wf_handle_log_moved:
  assumes "wf t"
  shows "wf (snd (handle_log_moved e t))"
proof (cases "follow_current t")
  case False
  with wf_handle_log_deleted [OF assms] show ?thesis by (simp add: handle_log_moved_eq)
next
  case fc: True
  show ?thesis
  proof (cases "find_logfile e")
    case (Inl x)
    with fc assms show ?thesis by (simp add: handle_log_moved_eq wf_def)
  next
    case (Inr p)
    let ?t0 = "t\<lparr>calls := calls t @ [CallFindLogfile], path := p\<rparr>"
    let ?t1 = "snd (stop_observer ?t0)"
    from assms have w0: "wf ?t0" by (simp add: wf_def)
    then have w1: "wf ?t1" by (rule wf_stop_observer)
    show ?thesis
    proof (cases "alive (observers t ! observer t) \<and> stuck (observers t ! observer t)")
      case True
      with fc Inr w1 show ?thesis by (simp add: handle_log_moved_eq)
    next
      case False
      from w0 have i: "observer ?t0 < length (observers ?t0)" by (simp add: wf_def)
      from False have "\<not> alive (stop_join (observers ?t0 ! observer ?t0))"
        by (simp add: stop_join_def)
      with stop_observer_current [OF i] have "\<not> alive (observers ?t1 ! observer ?t1)"
        by (simp add: stop_observer_snd)
      with w1 have "list_all (\<lambda>ob. \<not> alive ob) (observers ?t1)" by (rule wf_all_dead)
      from wf_extend [OF this] fc Inr show ?thesis
        by (simp add: handle_log_moved_eq Let_def False)
    qed
  qed
qed

lemma reachable_wf:
  assumes "reachable t"
  shows "wf t"
  using assms
proof (induction rule: reachable.induct)
  case (r_construct e a ob fc t)
  then show ?case by (rule wf_construct)
next
  case (r_moved t e)
  then show ?case by (simp add: wf_handle_log_moved)
next
  case (r_deleted t)
  then show ?case by (simp add: wf_handle_log_deleted)
next
  case (r_del t)
  then show ?case by (simp add: wf_del)
qed

lemma construct_linux: "construct linux_env (ArgStr ''/tmp/Player.log'') None True = Inr linux_tracker"
  by (simp add: machine_defs op_defs path_defs const_defs)

lemma construct_win: "construct win_env (ArgStr ''/tmp/Player.log'') None True = Inr win_tracker"
  by (simp add: machine_defs op_defs path_defs const_defs)

lemma construct_stuck:
  "construct linux_env (ArgStr ''/tmp/Player.log'') (Some stuck_observer) True = Inr stuck_tracker"
  by (simp add: machine_defs op_defs path_defs const_defs)

lemma find_logfile_win: "find_logfile win_env = Inr win_arena_log"
  by (simp add: find_logfile_def machine_defs const_defs path_defs)

subsection \<open>At most one observer alive\<close>

lemma nth_fresh: "(xs[i := v] @ [y]) ! length xs = y"
  by (simp add: nth_append)

text \<open>
  Claim C4. A tracker returned by the constructor or left behind by any sequence of
  \<open>handle_log_moved\<close>, \<open>handle_log_deleted\<close> and \<open>__del__\<close> calls has at most one observer
  alive, also between the stop and the creation of the next observer. When
  \<open>handle_log_moved\<close> adds an observer, the previous one was stopped and joined and found
  not alive before the new one was created, scheduled and started.
\<close>

theorem at_most_one_active_handle:
  assumes "reachable t"
  shows "active_handles t \<le> 1 \<and>
    active_handles (snd (stop_observer t)) \<le> 1 \<and>
    (length (observers (snd (handle_log_moved e t))) \<noteq> length (observers t) \<longrightarrow>
       \<not> alive (stop_join (observers t ! observer t)) \<and>
       \<not> alive (observers (snd (handle_log_moved e t)) ! observer t) \<and>
       active_handles (snd (handle_log_moved e t)) = 1 \<and>
       calls (snd (handle_log_moved e t)) =
         calls t @
           [CallFindLogfile, CallStop (observer t), CallJoin (observer t),
            CallIsAlive (observer t), CallNewObserver (length (observers t)),
            CallSchedule (length (observers t)) (parent (path (snd (handle_log_moved e t)))),
            CallStart (length (observers t))])"
proof -
  from assms have w: "wf t" by (rule reachable_wf)
  then have i: "observer t < length (observers t)" by (simp add: wf_def)
  from wf_active_handles [OF w] have a: "active_handles t \<le> 1" by simp
  from wf_active_handles [OF wf_stop_observer [OF w]]
  have b: "active_handles (snd (stop_observer t)) \<le> 1" by simp
  have c: "length (observers (snd (handle_log_moved e t))) \<noteq> length (observers t) \<longrightarrow>
       \<not> alive (stop_join (observers t ! observer t)) \<and>
       \<not> alive (observers (snd (handle_log_moved e t)) ! observer t) \<and>
       active_handles (snd (handle_log_moved e t)) = 1 \<and>
       calls (snd (handle_log_moved e t)) =
         calls t @
           [CallFindLogfile, CallStop (observer t), CallJoin (observer t),
            CallIsAlive (observer t), CallNewObserver (length (observers t)),
            CallSchedule (length (observers t)) (parent (path (snd (handle_log_moved e t)))),
            CallStart (length (observers t))]"
  proof (cases "follow_current t")
    case False
    then show ?thesis by (simp add: handle_log_moved_eq handle_log_deleted_eq stop_observer_snd)
  next
    case fc: True
    show ?thesis
    proof (cases "find_logfile e")
      case (Inl x)
      with fc show ?thesis by (simp add: handle_log_moved_eq)
    next
      case (Inr p)
      show ?thesis
      proof (cases "alive (observers t ! observer t) \<and> stuck (observers t ! observer t)")
        case True
        with fc Inr show ?thesis by (simp add: handle_log_moved_eq stop_observer_snd)
      next
        case False
        have w': "wf (snd (handle_log_moved e t))" using w by (rule wf_handle_log_moved)
        from fc Inr i have al: "alive (observers (snd (handle_log_moved e t)) !
            observer (snd (handle_log_moved e t)))"
          by (simp add: handle_log_moved_eq Let_def False stop_observer_snd schedule_start_def
              nth_fresh)
        from wf_active_handles [OF w'] al
        have one: "active_handles (snd (handle_log_moved e t)) = 1" by simp
        from False have d: "\<not> alive (stop_join (observers t ! observer t))"
          by (simp add: stop_join_def)
        from fc Inr i d have old: "\<not> alive (observers (snd (handle_log_moved e t)) ! observer t)"
          by (simp add: handle_log_moved_eq Let_def False stop_observer_snd nth_append)
        from fc Inr have cs: "calls (snd (handle_log_moved e t)) =
          calls t @
           [CallFindLogfile, CallStop (observer t), CallJoin (observer t),
            CallIsAlive (observer t), CallNewObserver (length (observers t)),
            CallSchedule (length (observers t)) (parent (path (snd (handle_log_moved e t)))),
            CallStart (length (observers t))]"
          by (simp add: handle_log_moved_eq Let_def False stop_observer_snd)
        from d old one cs show ?thesis by blast
      qed
    qed
  qed
  from a b c show ?thesis by blast
qed

theorem at_most_one_active_handle_witness:
  "reachable (snd (handle_log_moved win_env win_tracker)) \<and>
   active_handles (snd (handle_log_moved win_env win_tracker)) \<le> 1 \<and>
   length (observers (snd (handle_log_moved win_env win_tracker))) \<noteq> length (observers win_tracker) \<and>
   \<not> alive (observers (snd (handle_log_moved win_env win_tracker)) ! observer win_tracker) \<and>
   active_handles (snd (handle_log_moved win_env win_tracker)) = 1"
proof -
  have r0: "reachable win_tracker" using construct_win by (rule r_construct)
  then have r1: "reachable (snd (handle_log_moved win_env win_tracker))" by (rule r_moved)
  have fc: "follow_current win_tracker" by (simp add: win_tracker_def)
  have ns: "\<not> (alive (observers win_tracker ! observer win_tracker) \<and>
      stuck (observers win_tracker ! observer win_tracker))" by (simp add: win_tracker_def)
  have g: "length (observers (snd (handle_log_moved win_env win_tracker))) \<noteq>
      length (observers win_tracker)"
    by (simp add: handle_log_moved_eq fc find_logfile_win ns Let_def stop_observer_snd)
  from at_most_one_active_handle [OF r1, of win_env]
  have a: "active_handles (snd (handle_log_moved win_env win_tracker)) \<le> 1" by blast
  from at_most_one_active_handle [OF r0, of win_env] g
  have b: "\<not> alive (observers (snd (handle_log_moved win_env win_tracker)) ! observer win_tracker)"
    and c: "active_handles (snd (handle_log_moved win_env win_tracker)) = 1" by blast+
  from r1 a g b c show ?thesis by blast
qed

subsection \<open>Following a rotation\<close>

text \<open>
  What a followed move does. With \<open>follow_current\<close> set, when the automatic lookup
  succeeds and the observer is not alive after stop and join, \<open>handle_log_moved\<close> raises
  nothing; the tracked path is the path the lookup returned, which is the resolved log file
  of the platform's standard location whatever path the tracker was built with; the handler
  is kept; and exactly one observer is alive, the new one, watching the parent directory of
  the new path.
\<close>

lemma rotation_followed:
  assumes "reachable t" and "follow_current t" and "find_logfile e = Inr p"
    and "\<not> alive (stop_join (observers t ! observer t))"
  shows "fst (handle_log_moved e t) = None \<and>
    path (snd (handle_log_moved e t)) = p \<and>
    p = resolve e (expected_logfile e) \<and>
    event_handler (snd (handle_log_moved e t)) = event_handler t \<and>
    active_handles (snd (handle_log_moved e t)) = 1 \<and>
    observer (snd (handle_log_moved e t)) = length (observers t) \<and>
    alive (observers (snd (handle_log_moved e t)) ! length (observers t)) \<and>
    watches (observers (snd (handle_log_moved e t)) ! length (observers t)) = [parent p] \<and>
    \<not> alive (observers (snd (handle_log_moved e t)) ! observer t)"
proof -
  from assms(1) have w: "wf t" by (rule reachable_wf)
  then have i: "observer t < length (observers t)" by (simp add: wf_def)
  from assms(4) have ns: "\<not> (alive (observers t ! observer t) \<and> stuck (observers t ! observer t))"
    by (simp add: stop_join_def)
  from assms(3) have p: "p = resolve e (expected_logfile e)"
    by (simp add: find_logfile_cases split: if_splits)
  have w': "wf (snd (handle_log_moved e t))" using w by (rule wf_handle_log_moved)
  from assms(2,3) have r: "fst (handle_log_moved e t) = None"
    by (simp add: handle_log_moved_eq Let_def ns)
  from assms(2,3) have pa: "path (snd (handle_log_moved e t)) = p"
    and eh: "event_handler (snd (handle_log_moved e t)) = event_handler t"
    and ob: "observer (snd (handle_log_moved e t)) = length (observers t)"
    by (simp_all add: handle_log_moved_eq Let_def ns stop_observer_snd)
  from assms(2,3) have al: "alive (observers (snd (handle_log_moved e t)) ! length (observers t))"
    and wa: "watches (observers (snd (handle_log_moved e t)) ! length (observers t)) = [parent p]"
    by (simp_all add: handle_log_moved_eq Let_def ns stop_observer_snd schedule_start_def
        get_watchdog_observer_def nth_fresh)
  from wf_active_handles [OF w'] al ob
  have one: "active_handles (snd (handle_log_moved e t)) = 1" by simp
  from assms(2,3,4) i have old: "\<not> alive (observers (snd (handle_log_moved e t)) ! observer t)"
    by (simp add: handle_log_moved_eq Let_def ns stop_observer_snd nth_append)
  from r pa p eh one ob al wa old show ?thesis by blast
qed

text \<open>
  Claim C2. After a followed move of the tracked file the tracker watches the new current
  log file; for a tracker built with the explicit path \<open>/tmp/Player.log\<close>, that is the
  recreated \<open>/tmp/Player.log\<close>. The code departs from this: \<open>handle_log_moved\<close> looks the
  file up with \<open>find_logfile\<close> and drops the path the constructor was given. On the Windows
  machine the tracker built with \<open>/tmp/Player.log\<close>, which still exists, tracks the Arena
  log file below \<open>LocalLow\<close> after the move; on the Linux machine the same call ends with
  the unsupported-platform error.
\<close>

theorem rotation_ignores_explicit_path:
  "construct win_env (ArgStr ''/tmp/Player.log'') None True = Inr win_tracker \<and>
   path win_tracker = win_tmp_player_log \<and>
   exists win_env win_tmp_player_log \<and>
   fst (handle_log_moved win_env win_tracker) = None \<and>
   path (snd (handle_log_moved win_env win_tracker)) = win_arena_log \<and>
   win_arena_log \<noteq> win_tmp_player_log \<and>
   construct linux_env (ArgStr ''/tmp/Player.log'') None True = Inr linux_tracker \<and>
   exists linux_env tmp_player_log \<and>
   fst (handle_log_moved linux_env linux_tracker) = Some UnsupportedPlatform"
proof -
  have fc: "follow_current win_tracker" by (simp add: win_tracker_def)
  have ns: "\<not> (alive (observers win_tracker ! observer win_tracker) \<and>
      stuck (observers win_tracker ! observer win_tracker))" by (simp add: win_tracker_def)
  have a: "fst (handle_log_moved win_env win_tracker) = None"
    by (simp add: handle_log_moved_eq fc find_logfile_win ns Let_def)
  have b: "path (snd (handle_log_moved win_env win_tracker)) = win_arena_log"
    by (simp add: handle_log_moved_eq fc find_logfile_win ns Let_def stop_observer_snd)
  have c: "path win_tracker = win_tmp_player_log \<and> exists win_env win_tmp_player_log \<and>
      win_arena_log \<noteq> win_tmp_player_log \<and> exists linux_env tmp_player_log"
    by (simp add: machine_defs)
  have fl: "follow_current linux_tracker" by (simp add: linux_tracker_def)
  have l: "find_logfile linux_env = Inl UnsupportedPlatform"
    by (simp add: find_logfile_cases linux_env_def const_defs)
  have d: "fst (handle_log_moved linux_env linux_tracker) = Some UnsupportedPlatform"
    by (simp add: handle_log_moved_eq fl l)
  from construct_win construct_linux a b c d show ?thesis by blast
qed

subsection \<open>Deletion, and a move that is not followed\<close>






end
